theory Spec2Isabelle
  imports Main "HOL-Library.Sublist" "HOL-Library.Multiset"
    "HOL-Library.Char_ord" "HOL-Library.List_Lexorder"
begin

section \<open>The console to-do application (todo\_app.py)\<close>

text \<open>
  A shallow embedding of \<^verbatim>\<open>console-python/todo_app.py\<close>: the \<^verbatim>\<open>Task\<close> class and the
  operations of \<^verbatim>\<open>TodoManager\<close>.

  Conventions of the embedding.
  \<^item> A Python \<^verbatim>\<open>str\<close> is a \<open>string\<close>, and a character of it is a code point below
    256 (\<open>of_char\<close> gives the code point). On such text \<^verbatim>\<open>str.lower\<close> and
    \<^verbatim>\<open>str.isspace\<close> are modelled exactly, for each of the 256 code points; text with
    a code point from 256 on is outside the type, and nothing is said of it.
  \<^item> Every \<^verbatim>\<open>input(...)\<close> of a method is a parameter of its model (the line the user
    typed); \<^verbatim>\<open>int(input(...))\<close> is a parameter of type \<open>int\<close>, the number already
    parsed.
  \<^item> Every \<^verbatim>\<open>print(...)\<close> of a method is an element of the list of strings its model
    returns.
  \<^item> \<^verbatim>\<open>datetime.now().strftime(...)\<close> is the parameter \<open>now\<close>.
  \<^item> The backing file is a component of the state; its content is what
    \<^verbatim>\<open>json.load\<close> would return.
  \<^item> An exception is a value \<open>Inl e\<close> of a sum type.
\<close>

subsection \<open>Strings\<close>

text \<open>
  The lower case of a code point below 256: the letters A to Z (65 to 90) and the capital
  letters 192 to 222 but the multiplication sign 215 move up by 32; every other code point,
  the sharp s 223 and the micro sign 181 among them, stays.
\<close>

definition lower_char :: "char \<Rightarrow> char" where
  "lower_char c =
     (let n = (of_char c :: nat)
      in if (65 \<le> n \<and> n \<le> 90) \<or> (192 \<le> n \<and> n \<le> 222 \<and> n \<noteq> 215) then char_of (n + 32)
         else c)"

text \<open>\<^verbatim>\<open>s.lower()\<close>. Below 256 no code point has a lower case of another length or one
  that depends on its neighbours, so the lower case of the text is that of its characters.\<close>

definition lower :: "string \<Rightarrow> string" where
  "lower s = map lower_char s"

text \<open>The code points below 256 that \<^verbatim>\<open>str.isspace\<close> accepts: tab, line feed, vertical
  tab, form feed, carriage return (9 to 13), the four separators 28 to 31, the space 32, the
  next line 133 and the no-break space 160.\<close>

definition isspace :: "char \<Rightarrow> bool" where
  "isspace c =
     (let n = (of_char c :: nat)
      in (9 \<le> n \<and> n \<le> 13) \<or> (28 \<le> n \<and> n \<le> 32) \<or> n = 133 \<or> n = 160)"

text \<open>\<^verbatim>\<open>s.strip()\<close>: the text without the white space at its two ends.\<close>

definition strip :: "string \<Rightarrow> string" where
  "strip s = rev (dropWhile isspace (rev (dropWhile isspace s)))"

text \<open>\<^verbatim>\<open>s.split(sep)\<close> for a separator of one character: one more piece than there are
  separators, empty pieces kept. The result is never the empty list (\<open>split_not_Nil\<close>
  below), so the first branch of the \<open>case\<close> is never taken.\<close>

fun split :: "char \<Rightarrow> string \<Rightarrow> string list" where
  "split sep [] = [[]]"
| "split sep (c # cs) =
     (if c = sep then [] # split sep cs
      else (case split sep cs of
              [] \<Rightarrow> [[c]]
            | p # ps \<Rightarrow> (c # p) # ps))"

text \<open>\<^verbatim>\<open>str(n)\<close> for an integer: decimal digits, with a minus sign for a negative one.\<close>

definition digit_char :: "nat \<Rightarrow> char" where
  "digit_char d = char_of (48 + d)"

function str_nat :: "nat \<Rightarrow> string" where
  "str_nat n = (if n < 10 then [digit_char n] else str_nat (n div 10) @ [digit_char (n mod 10)])"
  by pat_completeness auto
termination
  by (relation "measure (\<lambda>n. n)") auto

definition str_int :: "int \<Rightarrow> string" where
  "str_int i = (if i < 0 then CHR ''-'' # str_nat (nat (- i)) else str_nat (nat i))"

subsection \<open>Task model\<close>

text \<open>The attributes of a \<^verbatim>\<open>Task\<close>. The attribute \<^verbatim>\<open>id\<close> is the field \<open>task_id\<close>
  (\<open>id\<close> is the identity function of HOL).\<close>

record Task =
  task_id :: int
  title :: string
  description :: string
  priority :: string
  tags :: "string list"
  due_date :: "string option"
  completed :: bool
  created_at :: string

text \<open>
  \<^verbatim>\<open>Task.__init__\<close>. A parameter with a default is an \<open>option\<close>: \<open>None\<close> is the
  argument left out (for \<^verbatim>\<open>tags\<close>, \<^verbatim>\<open>due_date\<close> and \<^verbatim>\<open>created_at\<close>, whose
  default is \<^verbatim>\<open>None\<close>, also the argument \<^verbatim>\<open>None\<close>). \<^verbatim>\<open>tags or []\<close> and
  \<^verbatim>\<open>created_at or datetime.now()...\<close> replace a falsy value: \<^verbatim>\<open>None\<close>, the empty
  list, the empty string.
\<close>

definition Task_init ::
  "string \<Rightarrow> int \<Rightarrow> string \<Rightarrow> string option \<Rightarrow> string option \<Rightarrow> string list option \<Rightarrow>
   string option \<Rightarrow> bool option \<Rightarrow> string option \<Rightarrow> Task" where
  "Task_init now i t descr prio tgs due compl created =
     \<lparr> task_id = i,
       title = t,
       description = (case descr of None \<Rightarrow> [] | Some d \<Rightarrow> d),
       priority = (case prio of None \<Rightarrow> ''medium'' | Some p \<Rightarrow> p),
       tags = (case tgs of None \<Rightarrow> [] | Some ts \<Rightarrow> if ts = [] then [] else ts),
       due_date = due,
       completed = (case compl of None \<Rightarrow> False | Some b \<Rightarrow> b),
       created_at = (case created of None \<Rightarrow> now | Some c \<Rightarrow> if c = [] then now else c) \<rparr>"

text \<open>
  The dictionary of \<^verbatim>\<open>to_dict\<close> and of a record of the backing file: one entry for
  each of the eight keys, \<open>None\<close> when the key is absent (for \<^verbatim>\<open>tags\<close>,
  \<^verbatim>\<open>due_date\<close> and \<^verbatim>\<open>created_at\<close> also when its value is \<^verbatim>\<open>None\<close>, which
  \<^verbatim>\<open>__init__\<close> does not tell from an absent key).
\<close>

record task_dict =
  d_id :: "int option"
  d_title :: "string option"
  d_description :: "string option"
  d_priority :: "string option"
  d_tags :: "string list option"
  d_due_date :: "string option"
  d_completed :: "bool option"
  d_created_at :: "string option"

definition to_dict :: "Task \<Rightarrow> task_dict" where
  "to_dict self =
     \<lparr> d_id = Some (task_id self),
       d_title = Some (title self),
       d_description = Some (description self),
       d_priority = Some (priority self),
       d_tags = Some (tags self),
       d_due_date = due_date self,
       d_completed = Some (completed self),
       d_created_at = Some (created_at self) \<rparr>"

datatype error = TypeError | ValueError | JSONDecodeError

text \<open>\<^verbatim>\<open>Task.from_dict\<close>, that is \<^verbatim>\<open>Task(**data)\<close>: \<^verbatim>\<open>id\<close> and \<^verbatim>\<open>title\<close> have no
  default, so a dictionary without one of them raises \<^verbatim>\<open>TypeError\<close>.\<close>

definition from_dict :: "string \<Rightarrow> task_dict \<Rightarrow> error + Task" where
  "from_dict now data =
     (case d_id data of
        None \<Rightarrow> Inl TypeError
      | Some i \<Rightarrow>
          (case d_title data of
             None \<Rightarrow> Inl TypeError
           | Some t \<Rightarrow>
               Inr (Task_init now i t (d_description data) (d_priority data) (d_tags data)
                      (d_due_date data) (d_completed data) (d_created_at data))))"

subsection \<open>Todo manager\<close>

text \<open>The backing file: absent, present but not JSON, or the list of records it holds.\<close>

datatype backing_file = NoFile | NotJson | Json "task_dict list"

text \<open>The state: the attribute \<^verbatim>\<open>self.tasks\<close> and the file named \<^verbatim>\<open>self.filename\<close>.\<close>

record manager =
  tasks :: "Task list"
  disk :: backing_file

fun from_dicts :: "string \<Rightarrow> task_dict list \<Rightarrow> error + Task list" where
  "from_dicts now [] = Inr []"
| "from_dicts now (d # ds) =
     (case from_dict now d of
        Inl e \<Rightarrow> Inl e
      | Inr t \<Rightarrow> (case from_dicts now ds of Inl e \<Rightarrow> Inl e | Inr ts \<Rightarrow> Inr (t # ts)))"

definition load_tasks :: "string \<Rightarrow> manager \<Rightarrow> error + manager" where
  "load_tasks now self =
     (case disk self of
        NoFile \<Rightarrow> Inr (self\<lparr>tasks := []\<rparr>)
      | NotJson \<Rightarrow> Inl JSONDecodeError
      | Json data \<Rightarrow>
          (case from_dicts now data of
             Inl e \<Rightarrow> Inl e
           | Inr ts \<Rightarrow> Inr (self\<lparr>tasks := ts\<rparr>)))"

text \<open>\<^verbatim>\<open>TodoManager.__init__\<close>: the empty list, then \<^verbatim>\<open>load_tasks\<close>.\<close>

definition TodoManager_init :: "string \<Rightarrow> backing_file \<Rightarrow> error + manager" where
  "TodoManager_init now f = load_tasks now \<lparr> tasks = [], disk = f \<rparr>"

definition save_tasks :: "manager \<Rightarrow> manager" where
  "save_tasks self = self\<lparr>disk := Json (map to_dict (tasks self))\<rparr>"

text \<open>\<^verbatim>\<open>max(xs, default=d)\<close>\<close>

fun max_default :: "int list \<Rightarrow> int \<Rightarrow> int" where
  "max_default [] d = d"
| "max_default (x # xs) d = fold max xs x"

definition generate_id :: "manager \<Rightarrow> int" where
  "generate_id self = max_default (map task_id (tasks self)) 0 + 1"

definition valid_priorities :: "string list" where
  "valid_priorities = [''low'', ''medium'', ''high'']"

definition add_task ::
  "string \<Rightarrow> string \<Rightarrow> string \<Rightarrow> string \<Rightarrow> string \<Rightarrow> string \<Rightarrow> manager \<Rightarrow> string list \<times> manager" where
  "add_task now title_in description_in priority_in tags_in due_date_in self =
     (let priority0 = lower priority_in;
          priority1 = (if priority0 \<notin> set valid_priorities then ''medium'' else priority0);
          tags0 = split CHR '','' (lower tags_in);
          due = (if strip due_date_in = [] then None else Some due_date_in);
          new_task = Task_init now (generate_id self) title_in (Some description_in)
                       (Some priority1) (Some (map strip (filter (\<lambda>t. strip t \<noteq> []) tags0)))
                       due None None
      in ([''Task added successfully!''], save_tasks (self\<lparr>tasks := tasks self @ [new_task]\<rparr>)))"

definition delete_task :: "int \<Rightarrow> manager \<Rightarrow> string list \<times> manager" where
  "delete_task tid self =
     ([''Task deleted.''],
      save_tasks (self\<lparr>tasks := filter (\<lambda>task. task_id task \<noteq> tid) (tasks self)\<rparr>))"

fun find_task :: "Task list \<Rightarrow> int \<Rightarrow> Task option" where
  "find_task [] tid = None"
| "find_task (task # rest) tid = (if task_id task = tid then Some task else find_task rest tid)"

text \<open>\<^verbatim>\<open>find_task\<close> returns a reference to the first task with the id, and the caller
  assigns to its attributes: the model puts the changed task back at that place.\<close>

fun assign_found :: "Task list \<Rightarrow> int \<Rightarrow> Task \<Rightarrow> Task list" where
  "assign_found [] tid new = []"
| "assign_found (task # rest) tid new =
     (if task_id task = tid then new # rest else task # assign_found rest tid new)"

definition update_task ::
  "int \<Rightarrow> string \<Rightarrow> string \<Rightarrow> string \<Rightarrow> string \<Rightarrow> string \<Rightarrow> manager \<Rightarrow> string list \<times> manager" where
  "update_task tid title_in description_in priority_in tags_in due_date_in self =
     (case find_task (tasks self) tid of
        None \<Rightarrow> ([''Task not found.''], self)
      | Some task \<Rightarrow>
          (let prio = lower priority_in;
               t1 = (if title_in \<noteq> [] then task\<lparr>title := title_in\<rparr> else task);
               t2 = (if description_in \<noteq> [] then t1\<lparr>description := description_in\<rparr> else t1);
               t3 = (if prio \<in> set valid_priorities then t2\<lparr>priority := prio\<rparr> else t2);
               t4 = (if strip tags_in \<noteq> []
                     then t3\<lparr>tags := map strip (split CHR '','' tags_in)\<rparr> else t3);
               t5 = (if strip due_date_in \<noteq> [] then t4\<lparr>due_date := Some due_date_in\<rparr> else t4)
           in ([''Leave blank to keep current value.'', ''Task updated.''],
               save_tasks (self\<lparr>tasks := assign_found (tasks self) tid t5\<rparr>))))"

definition toggle_complete :: "int \<Rightarrow> manager \<Rightarrow> string list \<times> manager" where
  "toggle_complete tid self =
     (case find_task (tasks self) tid of
        None \<Rightarrow> ([''Task not found.''], self)
      | Some task \<Rightarrow>
          ([''Task status changed.''],
           save_tasks (self\<lparr>tasks :=
             assign_found (tasks self) tid (task\<lparr>completed := \<not> completed task\<rparr>)\<rparr>)))"

text \<open>The list \<^verbatim>\<open>results\<close> of \<^verbatim>\<open>search_tasks\<close>; \<^verbatim>\<open>a in b\<close> on strings is
  \<open>sublist a b\<close>.\<close>

definition search_results :: "string \<Rightarrow> manager \<Rightarrow> Task list" where
  "search_results keyword_in self =
     (let keyword = lower keyword_in
      in filter (\<lambda>t. sublist keyword (lower (title t)) \<or> sublist keyword (lower (description t)))
           (tasks self))"

definition search_tasks :: "string \<Rightarrow> manager \<Rightarrow> string list" where
  "search_tasks keyword_in self =
     (let results = search_results keyword_in self
      in if results = [] then [''No matching tasks.'']
         else (CHR 0x0A # ''Search Results:'')
              # map (\<lambda>t. ''- '' @ str_int (task_id t) @ '' | '' @ title t) results)"

text \<open>\<^verbatim>\<open>xs.index(v)\<close>: the first position of \<open>v\<close>, \<^verbatim>\<open>ValueError\<close> (here \<open>None\<close>) when
  there is none.\<close>

fun index :: "'a list \<Rightarrow> 'a \<Rightarrow> nat option" where
  "index [] v = None"
| "index (x # xs) v = (if x = v then Some 0 else map_option Suc (index xs v))"

definition priority_key :: "Task \<Rightarrow> nat option" where
  "priority_key x = index [''low'', ''medium'', ''high''] (priority x)"

definition sort_menu :: string where
  "sort_menu = CHR 0x0A # ''1. Sort by priority'' @ CHR 0x0A # ''2. Sort alphabetically''
     @ CHR 0x0A # ''3. Sort by creation date'' @ [CHR 0x0A]"

text \<open>
  \<^verbatim>\<open>sort_tasks\<close>. \<^verbatim>\<open>list.sort(key=...)\<close> is a stable sort on the keys, which
  \<open>sort_key\<close> is; it computes the key of every element first, so a key that raises leaves
  the list as it was and nothing is saved.
\<close>

definition sort_tasks :: "string \<Rightarrow> manager \<Rightarrow> error + string list \<times> manager" where
  "sort_tasks choice self =
     (if choice = ''1'' then
        (if \<exists>x \<in> set (tasks self). priority_key x = None then Inl ValueError
         else Inr ([sort_menu, ''Tasks sorted.''],
                   save_tasks (self\<lparr>tasks := sort_key (\<lambda>x. the (priority_key x)) (tasks self)\<rparr>)))
      else if choice = ''2'' then
        Inr ([sort_menu, ''Tasks sorted.''],
             save_tasks (self\<lparr>tasks := sort_key (\<lambda>x. lower (title x)) (tasks self)\<rparr>))
      else if choice = ''3'' then
        Inr ([sort_menu, ''Tasks sorted.''],
             save_tasks (self\<lparr>tasks := sort_key (\<lambda>x. created_at x) (tasks self)\<rparr>))
      else Inr ([sort_menu, ''Invalid choice.''], self))"

subsection \<open>Notions of the specification\<close>

text \<open>The invariant of the data model: every task of the collection has one of the three
  priorities.\<close>

definition priorities_valid :: "manager \<Rightarrow> bool" where
  "priorities_valid self = list_all (\<lambda>t. priority t \<in> set valid_priorities) (tasks self)"

text \<open>A record of the backing file whose priority, when the key is there, is one of the
  three.\<close>

definition record_priority_valid :: "task_dict \<Rightarrow> bool" where
  "record_priority_valid d =
     (case d_priority d of None \<Rightarrow> True | Some p \<Rightarrow> p \<in> set valid_priorities)"

text \<open>The fixed order of the priorities, in the words of the specification:
  low before medium before high.\<close>

definition priority_rank :: "string \<Rightarrow> nat" where
  "priority_rank p = (if p = ''low'' then 0 else if p = ''medium'' then 1 else 2)"


subsection \<open>Example data\<close>

definition task1 :: Task where
  "task1 = \<lparr> task_id = 1, title = ''Buy milk'', description = ''Two litres'', priority = ''high'',
             tags = [''home''], due_date = None, completed = False,
             created_at = ''2025-01-01 09:00:00'' \<rparr>"

definition task2 :: Task where
  "task2 = \<lparr> task_id = 2, title = ''Pay rent'', description = [], priority = ''low'',
             tags = [], due_date = Some ''2025-02-01'', completed = True,
             created_at = ''2025-01-02 10:30:00'' \<rparr>"

definition task3 :: Task where
  "task3 = \<lparr> task_id = 3, title = ''Call Bob'', description = ''About the MILK order'',
             priority = ''medium'', tags = [''work'', ''phone''], due_date = None,
             completed = False, created_at = ''2025-01-03 08:15:00'' \<rparr>"

definition manager123 :: manager where
  "manager123 = \<lparr> tasks = [task1, task2, task3], disk = Json (map to_dict [task1, task2, task3]) \<rparr>"

text \<open>A record of a backing file with a priority that is none of the three.\<close>

definition urgent_record :: task_dict where
  "urgent_record =
     \<lparr> d_id = Some 1, d_title = Some ''Ship release'', d_description = Some [],
       d_priority = Some ''urgent'', d_tags = Some [], d_due_date = None,
       d_completed = Some False, d_created_at = Some ''2025-03-01 07:00:00'' \<rparr>"

definition urgent_task :: Task where
  "urgent_task =
     \<lparr> task_id = 1, title = ''Ship release'', description = [], priority = ''urgent'',
       tags = [], due_date = None, completed = False, created_at = ''2025-03-01 07:00:00'' \<rparr>"

section \<open>Auxiliary lemmas\<close>

subsection \<open>Characters and strings\<close>

text \<open>The white space among the 256 code points, and the code point of the lower case
  of a character.\<close>

lemma isspace_iff:
  "isspace c \<longleftrightarrow> (of_char c :: nat) \<in> {9, 10, 11, 12, 13, 28, 29, 30, 31, 32, 133, 160}"
  unfolding isspace_def Let_def by (simp only: insert_iff empty_iff) arith

lemma strip_no_break_space: "strip [CHR 0xA0] = [] \<and> strip [CHR 0x85, CHR ''a'', CHR 0xA0] = ''a''"
  by code_simp

lemma lower_capital_e_acute: "lower (CHR 0xC9 # ''COLE'') = CHR 0xE9 # ''cole''"
  by code_simp

lemma of_char_lower_char:
  "(of_char (lower_char c) :: nat) =
     (if (65 \<le> (of_char c :: nat) \<and> (of_char c :: nat) \<le> 90) \<or>
         (192 \<le> (of_char c :: nat) \<and> (of_char c :: nat) \<le> 222 \<and> (of_char c :: nat) \<noteq> 215)
      then of_char c + 32 else of_char c)"
  by (simp add: lower_char_def Let_def)

lemma lower_char_idem: "lower_char (lower_char c) = lower_char c"
proof -
  have "(of_char (lower_char (lower_char c)) :: nat) = of_char (lower_char c)"
    by (simp add: of_char_lower_char)
  then show ?thesis by simp
qed

lemma isspace_lower_char: "isspace (lower_char c) = isspace c"
  unfolding isspace_def Let_def of_char_lower_char by auto

lemma split_not_Nil: "split sep s \<noteq> []"
  by (induction s) (auto split: list.splits)

lemma dropWhile_id: "xs = [] \<or> \<not> P (hd xs) \<Longrightarrow> dropWhile P xs = xs"
  by (cases xs) auto

lemma strip_ends:
  assumes "strip s \<noteq> []"
  shows "\<not> isspace (hd (strip s))" and "\<not> isspace (last (strip s))"
proof -
  define a where "a = dropWhile isspace s"
  define b where "b = dropWhile isspace (rev a)"
  have s: "strip s = rev b" by (simp add: strip_def a_def b_def)
  with assms have b: "b \<noteq> []" by simp
  then have hb: "\<not> isspace (hd b)" unfolding b_def by (rule hd_dropWhile)
  from b have a: "a \<noteq> []" unfolding b_def by auto
  then have ha: "\<not> isspace (hd a)" unfolding a_def by (rule hd_dropWhile)
  obtain pre where pre: "rev a = pre @ b"
    unfolding b_def by (metis takeWhile_dropWhile_id)
  from pre b have "last b = last (rev a)" by simp
  also have "\<dots> = hd a" using a by (simp add: last_rev)
  finally have lb: "last b = hd a" .
  show "\<not> isspace (hd (strip s))" using s b lb ha by (simp add: hd_rev)
  show "\<not> isspace (last (strip s))" using s b hb by (simp add: last_rev)
qed

lemma strip_strip: "strip (strip s) = strip s"
proof (cases "strip s = []")
  case True
  have "strip [] = []" by (simp add: strip_def)
  with True show ?thesis by simp
next
  case False
  note e = strip_ends [OF False]
  have 1: "dropWhile isspace (strip s) = strip s"
    using False e(1) by (intro dropWhile_id) simp
  have 2: "dropWhile isspace (rev (strip s)) = rev (strip s)"
    using False e(2) by (intro dropWhile_id) (simp add: hd_rev)
  show ?thesis
    by (subst (1) strip_def) (simp only: 1 2 rev_rev_ident)
qed


subsection \<open>Looking a task up\<close>

lemma find_task_assign_found:
  "find_task ts tid = Some task \<Longrightarrow> task_id new = tid \<Longrightarrow>
   find_task (assign_found ts tid new) tid = Some new"
  by (induction ts) (auto split: if_splits)

lemma set_assign_found: "set (assign_found ts tid new) \<subseteq> insert new (set ts)"
  by (induction ts) auto

lemma find_task_Some: "find_task ts tid = Some task \<Longrightarrow> task \<in> set ts \<and> task_id task = tid"
  by (induction ts) (auto split: if_splits)

lemma assign_found_same: "find_task ts tid = Some task \<Longrightarrow> assign_found ts tid task = ts"
  by (induction ts) (auto split: if_splits)

section \<open>Serialisation of a task\<close>

text \<open>What the constructor returns has a creation time, as long as the clock prints one
  (\<^verbatim>\<open>strftime("%Y-%m-%d %H:%M:%S")\<close> prints nineteen characters).\<close>

lemma Task_init_created_at: "now \<noteq> [] \<Longrightarrow> created_at (Task_init now i t d p g du c cr) \<noteq> []"
  by (simp add: Task_init_def split: option.splits)

text \<open>
  Claim C1. Deserialising the serialised record of a task gives the task back, equal on all
  eight fields, \<open>task_id\<close> and \<open>created_at\<close> included. A valid task has a creation time
  (a time stamp, never the empty text), and so has every task the constructor returns; the
  clock reading \<open>now\<close> of the deserialisation plays no part.
\<close>

theorem from_dict_to_dict: "created_at t \<noteq> [] \<Longrightarrow> from_dict now (to_dict t) = Inr t"
  by (simp add: from_dict_def to_dict_def Task_init_def)

theorem from_dict_to_dict_witness:
  "from_dict ''2026-06-01 12:00:00'' (to_dict task1) = Inr task1"
  using from_dict_to_dict [of task1 "''2026-06-01 12:00:00''"] by (simp add: task1_def)

section \<open>Fresh identifiers\<close>

lemma max_default_Max: "xs \<noteq> [] \<Longrightarrow> max_default xs d = Max (set xs)"
proof (cases xs)
  case Nil
  assume "xs \<noteq> []"
  with Nil show ?thesis by simp
next
  case (Cons y ys)
  have "max_default (y # ys) d = fold max ys y" by simp
  also have "\<dots> = Max (set (y # ys))" by (simp only: Max.set_eq_fold)
  finally show ?thesis using Cons by simp
qed

text \<open>
  Claim C3. \<open>generate_id\<close> returns 1 on the empty collection and one more than the largest
  id of the collection otherwise; when the ids of the collection are 1, 2 and 3 and the task
  with id 3 is deleted, the next \<open>generate_id\<close> is 3 again.
\<close>

theorem generate_id_spec:
  "(tasks self = [] \<longrightarrow> generate_id self = 1) \<and>
   (tasks self \<noteq> [] \<longrightarrow> generate_id self = 1 + Max (set (map task_id (tasks self)))) \<and>
   (set (map task_id (tasks self)) = {1, 2, 3} \<longrightarrow> generate_id (snd (delete_task 3 self)) = 3)"
proof (intro conjI impI)
  assume "tasks self = []"
  then show "generate_id self = 1" by (simp add: generate_id_def)
next
  assume "tasks self \<noteq> []"
  then show "generate_id self = 1 + Max (set (map task_id (tasks self)))"
    by (simp add: generate_id_def max_default_Max)
next
  assume ids: "set (map task_id (tasks self)) = {1, 2, 3}"
  let ?rest = "filter (\<lambda>task. task_id task \<noteq> 3) (tasks self)"
  have "set (map task_id ?rest) = set (map task_id (tasks self)) - {3}"
    by auto
  with ids have r: "set (map task_id ?rest) = {1, 2}" by auto
  have ne: "map task_id ?rest \<noteq> []"
  proof
    assume "map task_id ?rest = []"
    then have "set (map task_id ?rest) = {}" by (simp only: set_simps)
    with r show False by simp
  qed
  have "generate_id (snd (delete_task 3 self)) = max_default (map task_id ?rest) 0 + 1"
    by (simp add: generate_id_def delete_task_def save_tasks_def)
  also have "\<dots> = Max {1, 2} + 1"
    using max_default_Max [OF ne, of 0] r by simp
  finally show "generate_id (snd (delete_task 3 self)) = 3" by simp
qed

theorem generate_id_spec_witness:
  "generate_id \<lparr> tasks = [], disk = NoFile \<rparr> = 1 \<and>
   generate_id manager123 = 4 \<and>
   generate_id (snd (delete_task 3 manager123)) = 3"
  using generate_id_spec [of "\<lparr> tasks = [], disk = NoFile \<rparr>"] generate_id_spec [of manager123]
  by (simp add: manager123_def task1_def task2_def task3_def)

section \<open>Deleting a task\<close>

lemma filter_absent: "find_task ts tid = None \<Longrightarrow> filter (\<lambda>task. task_id task \<noteq> tid) ts = ts"
  by (induction ts) (auto split: if_splits)

lemma find_task_filtered: "find_task (filter (\<lambda>task. task_id task \<noteq> tid) ts) tid = None"
  by (induction ts) auto

text \<open>The part of claim C4 that holds: \<open>delete_task\<close> keeps exactly the tasks with another
  id, so that no task with the id remains; when no task has the id the collection is
  unchanged; in both cases the collection that results is written to the backing file.\<close>

lemma delete_task_collection:
  "tasks (snd (delete_task tid self)) = filter (\<lambda>task. task_id task \<noteq> tid) (tasks self) \<and>
   find_task (tasks (snd (delete_task tid self))) tid = None \<and>
   (find_task (tasks self) tid = None \<longrightarrow> tasks (snd (delete_task tid self)) = tasks self) \<and>
   disk (snd (delete_task tid self)) = Json (map to_dict (tasks (snd (delete_task tid self))))"
  by (simp add: delete_task_def save_tasks_def filter_absent find_task_filtered)

text \<open>
  Claim C4 at an id that no task has. On the collection with ids 1, 2 and 3 and the id 7,
  \<open>delete_task\<close> leaves the collection as it is and writes it, and what it reports is the
  line \<^verbatim>\<open>Task deleted.\<close>, the very line it reports when it removes the task with id 1:
  it does not tell that no task was found, which \<open>update_task\<close> and \<open>toggle_complete\<close> do
  for the same id.
\<close>

theorem delete_task_absent_id:
  "find_task (tasks manager123) 7 = None \<and>
   delete_task 7 manager123 = ([''Task deleted.''], manager123) \<and>
   fst (delete_task 1 manager123) = [''Task deleted.''] \<and>
   fst (update_task 7 [] [] [] [] [] manager123) = [''Task not found.''] \<and>
   fst (toggle_complete 7 manager123) = [''Task not found.'']"
  by (simp add: delete_task_def update_task_def toggle_complete_def save_tasks_def
      manager123_def task1_def task2_def task3_def)

section \<open>Updating a task\<close>

text \<open>
  Claim C2 at a title of two spaces. The update of task 1 with the title \<^verbatim>\<open>"  "\<close> and
  every other input empty replaces the title of the task by the two spaces, although the
  input is blank (\<open>strip\<close> leaves nothing of it), and writes the changed collection to the
  backing file.
\<close>

theorem update_task_whitespace_title:
  "update_task 1 ''  '' [] [] [] [] manager123 =
     ([''Leave blank to keep current value.'', ''Task updated.''],
      \<lparr> tasks = [task1\<lparr>title := ''  ''\<rparr>, task2, task3],
        disk = Json (map to_dict [task1\<lparr>title := ''  ''\<rparr>, task2, task3]) \<rparr>) \<and>
   strip ''  '' = [] \<and> title (task1\<lparr>title := ''  ''\<rparr>) \<noteq> title task1"
  by (simp add: update_task_def save_tasks_def manager123_def task1_def task2_def task3_def
      strip_def isspace_def lower_def valid_priorities_def Let_def)

text \<open>A blank line is made of white space only, and is none of the three priorities.\<close>

lemma strip_Nil_iff: "strip s = [] \<longleftrightarrow> (\<forall>c \<in> set s. isspace c)"
proof
  assume "strip s = []"
  then have a: "\<forall>c \<in> set (dropWhile isspace s). isspace c"
    by (simp add: strip_def dropWhile_eq_Nil_conv)
  have "dropWhile isspace s = []"
  proof (rule ccontr)
    assume n: "dropWhile isspace s \<noteq> []"
    then have "\<not> isspace (hd (dropWhile isspace s))" by (rule hd_dropWhile)
    moreover from n have "hd (dropWhile isspace s) \<in> set (dropWhile isspace s)" by simp
    ultimately show False using a by blast
  qed
  then show "\<forall>c \<in> set s. isspace c" by (simp add: dropWhile_eq_Nil_conv)
next
  assume "\<forall>c \<in> set s. isspace c"
  then have d: "dropWhile isspace s = []" by (simp add: dropWhile_eq_Nil_conv)
  show "strip s = []" unfolding strip_def d by simp
qed

lemma blank_not_priority:
  assumes "strip p = []"
  shows "lower p \<notin> set valid_priorities"
proof
  assume v: "lower p \<in> set valid_priorities"
  then have ne: "p \<noteq> []" by (auto simp: valid_priorities_def lower_def)
  then have "hd p \<in> set p" by simp
  with assms have "isspace (hd p)" by (simp add: strip_Nil_iff)
  then have "isspace (lower_char (hd p))" by (simp add: isspace_lower_char)
  moreover have "lower_char (hd p) = hd (lower p)" using ne by (simp add: lower_def hd_map)
  ultimately have "isspace (hd (lower p))" by simp
  with v show False by (auto simp: valid_priorities_def isspace_def)
qed

text \<open>The task that \<open>find_task\<close> returns after an update of a task that is there.\<close>

lemma update_task_found:
  assumes "find_task (tasks self) tid = Some task"
  shows "find_task (tasks (snd (update_task tid ti de pr tg du self))) tid =
     Some (task\<lparr> title := if ti \<noteq> [] then ti else title task,
                 description := if de \<noteq> [] then de else description task,
                 priority := if lower pr \<in> set valid_priorities then lower pr else priority task,
                 tags := if strip tg \<noteq> [] then map strip (split CHR '','' tg) else tags task,
                 due_date := if strip du \<noteq> [] then Some du else due_date task \<rparr>)"
proof -
  have i: "task_id task = tid" using assms by (simp add: find_task_Some)
  show ?thesis
    using assms i
    by (simp add: update_task_def Let_def save_tasks_def find_task_assign_found)
qed

text \<open>The part of claim C2 that holds: with the title and the description empty and the
  three other inputs blank, the update changes no field of any task, and writes the
  collection to the backing file.\<close>

lemma update_task_blank:
  assumes "find_task (tasks self) tid = Some task"
    and "strip pr = []" and "strip tg = []" and "strip du = []"
  shows "update_task tid [] [] pr tg du self =
     ([''Leave blank to keep current value.'', ''Task updated.''], save_tasks self)"
  using assms blank_not_priority [of pr]
  by (simp add: update_task_def Let_def assign_found_same)

text \<open>
  Claim C6, as stated, fails on the case of the letters: the method puts the line it reads
  in lower case before the test (\<^verbatim>\<open>input(...).lower()\<close>). The value
  \<^verbatim>\<open>HIGH\<close> is none of low, medium and high, and yet the update of task 2, whose
  priority is low, with it sets the priority to high.
\<close>

theorem update_priority_case_counterexample:
  "''HIGH'' \<notin> set valid_priorities \<and>
   priority task2 = ''low'' \<and>
   find_task (tasks manager123) 2 = Some task2 \<and>
   find_task (tasks (snd (update_task 2 [] [] ''HIGH'' [] [] manager123))) 2
     = Some (task2\<lparr>priority := ''high''\<rparr>)"
  by code_simp

text \<open>
  Claim C6, amended. The update of a task that is there replaces its priority only when the
  priority supplied, put in lower case, is one of low, medium and high, and then by that
  lower-case value (so a supplied value that is one of the three replaces it as it is);
  any other value (such as \<^verbatim>\<open>urgent\<close>) leaves the priority as it was, and is not
  turned into medium.
\<close>

theorem update_priority:
  assumes "find_task (tasks self) tid = Some task"
  shows "\<exists>task'. find_task (tasks (snd (update_task tid ti de pr tg du self))) tid = Some task' \<and>
     priority task' = (if lower pr \<in> set valid_priorities then lower pr else priority task) \<and>
     (pr \<in> set valid_priorities \<longrightarrow> priority task' = pr) \<and>
     (lower pr \<notin> set valid_priorities \<longrightarrow> priority task' = priority task)"
proof -
  have l: "pr \<in> set valid_priorities \<Longrightarrow> lower pr = pr"
    by (auto simp: valid_priorities_def lower_def lower_char_def)
  show ?thesis
    using update_task_found [OF assms, of ti de pr tg du] l by auto
qed

theorem update_priority_witness:
  "find_task (tasks (snd (update_task 1 [] [] ''urgent'' [] [] manager123))) 1 = Some task1 \<and>
   priority task1 = ''high'' \<and>
   find_task (tasks (snd (update_task 1 [] [] ''low'' [] [] manager123))) 1
     = Some (task1\<lparr>priority := ''low''\<rparr>)"
proof -
  have f: "find_task (tasks manager123) 1 = Some task1"
    by (simp add: manager123_def task1_def)
  have u: "lower ''urgent'' \<notin> set valid_priorities"
    by (simp add: lower_def lower_char_def valid_priorities_def)
  have w: "''low'' \<in> set valid_priorities"
    by (simp add: valid_priorities_def)
  from update_priority [OF f, of "[]" "[]" "''urgent''" "[]" "[]"] u
    update_priority [OF f, of "[]" "[]" "''low''" "[]" "[]"] w
  show ?thesis
    by (simp add: manager123_def task1_def task2_def task3_def update_task_def Let_def
        save_tasks_def lower_def lower_char_def valid_priorities_def strip_def)
qed

section \<open>Tags on update and on add\<close>

lemma lower_char_comma: "lower_char c = CHR '','' \<longleftrightarrow> c = CHR '',''"
proof -
  have "lower_char c = CHR '','' \<longleftrightarrow> (of_char (lower_char c) :: nat) = of_char CHR '',''"
    by (simp only: of_char_eq_iff)
  also have "\<dots> \<longleftrightarrow> (of_char c :: nat) = of_char CHR '',''"
    by (simp add: of_char_lower_char)
  also have "\<dots> \<longleftrightarrow> c = CHR '',''"
    by (simp only: of_char_eq_iff)
  finally show ?thesis .
qed

lemma split_lower: "split CHR '','' (lower s) = map lower (split CHR '','' s)"
proof (induction s)
  case Nil
  show ?case by (simp add: lower_def)
next
  case (Cons c cs)
  obtain p ps where ps: "split CHR '','' cs = p # ps"
    using split_not_Nil [of "CHR '',''" cs] by (cases "split CHR '','' cs") auto
  from Cons ps have l: "split CHR '','' (map lower_char cs) = map lower_char p # map lower ps"
    by (simp add: lower_def)
  show ?case
    using ps l Cons by (simp add: lower_def lower_char_comma)
qed

lemma strip_lower: "strip (lower s) = lower (strip s)"
proof -
  have c: "isspace \<circ> lower_char = isspace"
    by (rule ext) (simp add: isspace_lower_char)
  show ?thesis
    by (simp add: strip_def lower_def dropWhile_map rev_map c)
qed

lemma lower_Nil_iff: "lower s = [] \<longleftrightarrow> s = []"
  by (simp add: lower_def)

lemma lower_lower: "lower (lower s) = lower s"
  by (simp add: lower_def lower_char_idem)

text \<open>The tags that \<open>add_task\<close> gives the new task.\<close>

lemma add_task_tasks:
  "tasks (snd (add_task now ti de pr tg du self)) =
     tasks self @
     [\<lparr> task_id = generate_id self, title = ti, description = de,
        priority = (if lower pr \<in> set valid_priorities then lower pr else ''medium''),
        tags = map strip (filter (\<lambda>t. strip t \<noteq> []) (split CHR '','' (lower tg))),
        due_date = (if strip du = [] then None else Some du),
        completed = False, created_at = now \<rparr>]"
  by (simp add: add_task_def Let_def save_tasks_def Task_init_def)

lemma add_tags_eq:
  "map strip (filter (\<lambda>t. strip t \<noteq> []) (split CHR '','' (lower tg)))
     = filter (\<lambda>g. g \<noteq> []) (map lower (map strip (split CHR '','' tg)))"
proof -
  have "map strip (filter (\<lambda>t. strip t \<noteq> []) (map lower xs))
      = filter (\<lambda>g. g \<noteq> []) (map lower (map strip xs))" for xs
    by (induction xs) (simp_all add: strip_lower lower_Nil_iff)
  then show ?thesis by (simp only: split_lower)
qed

lemma add_tags_props:
  "\<forall>g \<in> set (filter (\<lambda>g. g \<noteq> []) (map lower (map strip xs))).
     g \<noteq> [] \<and> strip g = g \<and> lower g = g"
proof
  fix g
  assume "g \<in> set (filter (\<lambda>g. g \<noteq> []) (map lower (map strip xs)))"
  then obtain t where t: "g = lower (strip t)" "g \<noteq> []"
    by auto
  have "strip g = lower (strip (strip t))"
    unfolding t(1) by (rule strip_lower)
  then have "strip g = g"
    by (simp only: strip_strip t(1))
  moreover have "lower g = g"
    unfolding t(1) by (rule lower_lower)
  ultimately show "g \<noteq> [] \<and> strip g = g \<and> lower g = g"
    using t(2) by simp
qed

text \<open>
  Claim C7. On update, a tag line that is not blank replaces the tags of the task
  altogether: the new tags are the pieces of the line between the commas, each one
  trimmed, whatever the old tags were, and they are not put in lower case. On add, the
  line is put in lower case and split at the commas, the pieces are trimmed and the empty
  ones dropped: every tag of the new task is non-empty, trimmed and in lower case, and the
  tags are the non-empty ones among the tags an update would set, in lower case.
\<close>

theorem tags_update_add:
  "(find_task (tasks self) tid = Some task \<and> strip tg \<noteq> [] \<longrightarrow>
      (\<exists>task'. find_task (tasks (snd (update_task tid ti de pr tg du self))) tid = Some task' \<and>
         tags task' = map strip (split CHR '','' tg))) \<and>
   (\<exists>new. tasks (snd (add_task now ti de pr tg du self)) = tasks self @ [new] \<and>
      tags new = map strip (filter (\<lambda>t. strip t \<noteq> []) (split CHR '','' (lower tg))) \<and>
      tags new = filter (\<lambda>g. g \<noteq> []) (map lower (map strip (split CHR '','' tg))) \<and>
      (\<forall>g \<in> set (tags new). g \<noteq> [] \<and> strip g = g \<and> lower g = g))"
proof (rule conjI)
  show "find_task (tasks self) tid = Some task \<and> strip tg \<noteq> [] \<longrightarrow>
      (\<exists>task'. find_task (tasks (snd (update_task tid ti de pr tg du self))) tid = Some task' \<and>
         tags task' = map strip (split CHR '','' tg))"
  proof
    assume a: "find_task (tasks self) tid = Some task \<and> strip tg \<noteq> []"
    then have f: "find_task (tasks self) tid = Some task" and n: "strip tg \<noteq> []"
      by simp_all
    show "\<exists>task'. find_task (tasks (snd (update_task tid ti de pr tg du self))) tid = Some task' \<and>
         tags task' = map strip (split CHR '','' tg)"
      by (rule exI, rule conjI, rule update_task_found [OF f]) (simp add: n)
  qed
next
  define new where "new = last (tasks (snd (add_task now ti de pr tg du self)))"
  have t: "tasks (snd (add_task now ti de pr tg du self)) = tasks self @ [new]"
    unfolding new_def add_task_tasks by simp
  have g: "tags new = map strip (filter (\<lambda>t. strip t \<noteq> []) (split CHR '','' (lower tg)))"
    unfolding new_def add_task_tasks by simp
  have e: "tags new = filter (\<lambda>g. g \<noteq> []) (map lower (map strip (split CHR '','' tg)))"
    unfolding g by (rule add_tags_eq)
  have p: "\<forall>g \<in> set (tags new). g \<noteq> [] \<and> strip g = g \<and> lower g = g"
    unfolding e by (rule add_tags_props)
  from t g e p show "\<exists>new. tasks (snd (add_task now ti de pr tg du self)) = tasks self @ [new] \<and>
      tags new = map strip (filter (\<lambda>t. strip t \<noteq> []) (split CHR '','' (lower tg))) \<and>
      tags new = filter (\<lambda>g. g \<noteq> []) (map lower (map strip (split CHR '','' tg))) \<and>
      (\<forall>g \<in> set (tags new). g \<noteq> [] \<and> strip g = g \<and> lower g = g)"
    by blast
qed

theorem tags_update_add_witness:
  "tags (the (find_task (tasks (snd (update_task 1 [] [] [] '' Work,, Home '' [] manager123))) 1))
     = [''Work'', [], ''Home''] \<and>
   tags (last (tasks (snd (add_task ''2026-06-01 12:00:00'' ''Read'' [] [] '' Work,, Home '' []
      manager123)))) = [''work'', ''home'']"
proof -
  have f: "find_task (tasks manager123) 1 = Some task1 \<and> strip '' Work,, Home '' \<noteq> []"
    by code_simp
  have s: "map strip (split CHR '','' '' Work,, Home '') = [''Work'', [], ''Home'']"
    by code_simp
  have l: "filter (\<lambda>g. g \<noteq> []) (map lower [''Work'', [], ''Home'']) = [''work'', ''home'']"
    by code_simp
  note inst_upd = tags_update_add [of manager123 1 task1 "'' Work,, Home ''" "[]" "[]" "[]" "[]"
      "''2026-06-01 12:00:00''"]
  from inst_upd f obtain task' where
    "find_task (tasks (snd (update_task 1 [] [] [] '' Work,, Home '' [] manager123))) 1 = Some task'"
    "tags task' = map strip (split CHR '','' '' Work,, Home '')"
    by blast
  then have u: "tags (the (find_task (tasks (snd (update_task 1 [] [] [] '' Work,, Home '' []
      manager123))) 1)) = [''Work'', [], ''Home'']"
    by (simp only: option.sel s)
  note inst_add = tags_update_add [of manager123 1 task1 "'' Work,, Home ''" "''Read''" "[]" "[]" "[]"
      "''2026-06-01 12:00:00''"]
  from inst_add obtain new where
    "tasks (snd (add_task ''2026-06-01 12:00:00'' ''Read'' [] [] '' Work,, Home '' [] manager123))
       = tasks manager123 @ [new]"
    "tags new = filter (\<lambda>g. g \<noteq> []) (map lower (map strip (split CHR '','' '' Work,, Home '')))"
    by blast
  then have a: "tags (last (tasks (snd (add_task ''2026-06-01 12:00:00'' ''Read'' [] []
      '' Work,, Home '' [] manager123)))) = [''work'', ''home'']"
    by (simp only: last_snoc s l)
  from u a show ?thesis by (rule conjI)
qed

section \<open>Searching\<close>




section \<open>Sorting by priority\<close>

lemma index_None_iff: "index xs v = None \<longleftrightarrow> v \<notin> set xs"
  by (induction xs) auto

lemma priority_key_None_iff: "priority_key x = None \<longleftrightarrow> priority x \<notin> set valid_priorities"
  by (simp add: priority_key_def index_None_iff valid_priorities_def)

lemma priority_key_rank:
  "priority x \<in> set valid_priorities \<Longrightarrow> priority_key x = Some (priority_rank (priority x))"
  by (auto simp: priority_key_def valid_priorities_def priority_rank_def)

lemma priority_rank_inj:
  "p \<in> set valid_priorities \<Longrightarrow> q \<in> set valid_priorities \<Longrightarrow>
   priority_rank p = priority_rank q \<longleftrightarrow> p = q"
  by (auto simp: valid_priorities_def priority_rank_def)

lemma sort_tasks_priority_valid:
  assumes "\<forall>t \<in> set (tasks self). priority t \<in> set valid_priorities"
  shows "sort_tasks ''1'' self =
     Inr ([sort_menu, ''Tasks sorted.''],
          save_tasks (self\<lparr>tasks := sort_key (\<lambda>x. the (priority_key x)) (tasks self)\<rparr>))"
  using assms by (simp add: sort_tasks_def priority_key_None_iff)

text \<open>
  Claim C8, as stated, fails on a collection that holds a priority other than low, medium
  and high, and a load gives such a collection: the backing file whose first record has the
  priority \<^verbatim>\<open>urgent\<close> loads, and sorting the loaded collection by priority raises
  \<^verbatim>\<open>ValueError\<close>, so that nothing is reordered and nothing is written.
\<close>

theorem sort_by_priority_counterexample:
  "TodoManager_init ''2026-06-01 12:00:00'' (Json [urgent_record, to_dict task2, to_dict task3])
     = Inr \<lparr> tasks = [urgent_task, task2, task3],
             disk = Json [urgent_record, to_dict task2, to_dict task3] \<rparr> \<and>
   sort_tasks ''1'' \<lparr> tasks = [urgent_task, task2, task3],
                      disk = Json [urgent_record, to_dict task2, to_dict task3] \<rparr>
     = Inl ValueError"
  by code_simp

text \<open>
  Claim C8, amended. On a collection whose priorities are all among low, medium and high,
  sorting by priority succeeds and leaves the same tasks in ascending order of priority, low
  before medium before high (not the order of the alphabet); tasks of equal priority keep
  their order; the new order is written to the backing file. Priorities high, low, medium
  end as low, medium, high.
\<close>

theorem sort_by_priority:
  assumes v: "\<forall>t \<in> set (tasks self). priority t \<in> set valid_priorities"
  shows "\<exists>self'. sort_tasks ''1'' self = Inr ([sort_menu, ''Tasks sorted.''], self') \<and>
     sorted (map (\<lambda>t. priority_rank (priority t)) (tasks self')) \<and>
     mset (tasks self') = mset (tasks self) \<and>
     (\<forall>p. filter (\<lambda>t. priority t = p) (tasks self') = filter (\<lambda>t. priority t = p) (tasks self)) \<and>
     disk self' = Json (map to_dict (tasks self'))"
proof -
  let ?k = "\<lambda>x. the (priority_key x)"
  let ?ts = "sort_key ?k (tasks self)"
  let ?self' = "save_tasks (self\<lparr>tasks := ?ts\<rparr>)"
  have k: "?k t = priority_rank (priority t)" if "t \<in> set (tasks self)" for t
    using that v by (simp add: priority_key_rank)
  have t: "tasks ?self' = ?ts" and d: "disk ?self' = Json (map to_dict ?ts)"
    by (simp_all add: save_tasks_def)
  have "sorted (map ?k ?ts)"
    by (rule sorted_sort_key)
  moreover have "map ?k ?ts = map (\<lambda>t. priority_rank (priority t)) ?ts"
    by (rule map_cong [OF refl]) (simp add: k)
  ultimately have s: "sorted (map (\<lambda>t. priority_rank (priority t)) ?ts)"
    by simp
  have m: "mset ?ts = mset (tasks self)"
    by simp
  have st: "filter (\<lambda>t. priority t = p) ?ts = filter (\<lambda>t. priority t = p) (tasks self)" for p
  proof (cases "p \<in> set valid_priorities")
    case True
    have e: "filter (\<lambda>t. priority t = p) xs = filter (\<lambda>t. ?k t = priority_rank p) xs"
      if "set xs = set (tasks self)" for xs
    proof (rule filter_cong [OF refl])
      fix x
      assume "x \<in> set xs"
      with that have x: "x \<in> set (tasks self)" by simp
      with v have "priority x \<in> set valid_priorities" by blast
      with True x show "(priority x = p) = (?k x = priority_rank p)"
        by (simp add: k priority_rank_inj)
    qed
    have "filter (\<lambda>t. priority t = p) ?ts = filter (\<lambda>t. ?k t = priority_rank p) ?ts"
      by (rule e) simp
    also have "\<dots> = filter (\<lambda>t. ?k t = priority_rank p) (tasks self)"
      by (rule sort_key_stable)
    also have "\<dots> = filter (\<lambda>t. priority t = p) (tasks self)"
      by (rule e [symmetric]) simp
    finally show ?thesis .
  next
    case False
    with v have "\<forall>x \<in> set (tasks self). priority x \<noteq> p" by blast
    then have "filter (\<lambda>t. priority t = p) (tasks self) = []"
      and "filter (\<lambda>t. priority t = p) ?ts = []"
      by (simp_all add: filter_empty_conv)
    then show ?thesis by simp
  qed
  show ?thesis
  proof (intro exI [of _ ?self'] conjI allI)
    show "sort_tasks ''1'' self = Inr ([sort_menu, ''Tasks sorted.''], ?self')"
      by (rule sort_tasks_priority_valid [OF v])
    show "sorted (map (\<lambda>t. priority_rank (priority t)) (tasks ?self'))"
      unfolding t by (rule s)
    show "mset (tasks ?self') = mset (tasks self)"
      unfolding t by (rule m)
    show "filter (\<lambda>t. priority t = p) (tasks ?self') = filter (\<lambda>t. priority t = p) (tasks self)"
      for p unfolding t by (rule st)
    show "disk ?self' = Json (map to_dict (tasks ?self'))"
      unfolding t by (rule d)
  qed
qed

theorem sort_by_priority_witness:
  "sort_tasks ''1'' manager123 =
     Inr ([sort_menu, ''Tasks sorted.''],
          \<lparr> tasks = [task2, task3, task1], disk = Json (map to_dict [task2, task3, task1]) \<rparr>) \<and>
   map priority (tasks manager123) = [''high'', ''low'', ''medium''] \<and>
   map priority [task2, task3, task1] = [''low'', ''medium'', ''high''] \<and>
   sorted (map (\<lambda>t. priority_rank (priority t)) [task2, task3, task1])"
proof -
  have h: "\<forall>t \<in> set (tasks manager123). priority t \<in> set valid_priorities"
    by code_simp
  have e: "sort_tasks ''1'' manager123 =
     Inr ([sort_menu, ''Tasks sorted.''],
          \<lparr> tasks = [task2, task3, task1], disk = Json (map to_dict [task2, task3, task1]) \<rparr>)"
    by code_simp
  have p: "map priority (tasks manager123) = [''high'', ''low'', ''medium'']"
    "map priority [task2, task3, task1] = [''low'', ''medium'', ''high'']"
    by (simp_all add: manager123_def task1_def task2_def task3_def)
  from sort_by_priority [OF h] obtain self' where
    "sort_tasks ''1'' manager123 = Inr ([sort_menu, ''Tasks sorted.''], self')"
    "sorted (map (\<lambda>t. priority_rank (priority t)) (tasks self'))"
    by blast
  with e have "sorted (map (\<lambda>t. priority_rank (priority t)) [task2, task3, task1])"
    by auto
  with e p show ?thesis by blast
qed

text \<open>
  Claim C10. Sorting by priority is partial. On every collection that holds a task whose
  priority is none of low, medium and high, the look-up of the sort key has no result and
  the operation fails with \<^verbatim>\<open>ValueError\<close>, without a sorted collection. Such a
  collection is reachable: a backing file with one record that has an id, a title and any
  such priority loads without error, since the deserialisation takes any priority text.
\<close>

theorem sort_by_priority_partial:
  "((\<exists>x \<in> set (tasks self). priority x \<notin> set valid_priorities) \<longrightarrow>
      sort_tasks ''1'' self = Inl ValueError) \<and>
   (d_id d = Some i \<and> d_title d = Some t \<and> d_priority d = Some p \<and> p \<notin> set valid_priorities \<longrightarrow>
      (\<exists>m. TodoManager_init now (Json [d]) = Inr m \<and> sort_tasks ''1'' m = Inl ValueError))"
proof (intro conjI impI)
  assume "\<exists>x \<in> set (tasks self). priority x \<notin> set valid_priorities"
  then show "sort_tasks ''1'' self = Inl ValueError"
    by (simp add: sort_tasks_def priority_key_None_iff)
next
  assume a: "d_id d = Some i \<and> d_title d = Some t \<and> d_priority d = Some p \<and>
    p \<notin> set valid_priorities"
  let ?task = "Task_init now i t (d_description d) (Some p) (d_tags d) (d_due_date d)
    (d_completed d) (d_created_at d)"
  let ?m = "\<lparr> tasks = [?task], disk = Json [d] \<rparr>"
  from a have l: "TodoManager_init now (Json [d]) = Inr ?m"
    by (simp add: TodoManager_init_def load_tasks_def from_dict_def)
  have "priority ?task = p"
    by (simp add: Task_init_def)
  with a have "sort_tasks ''1'' ?m = Inl ValueError"
    by (simp add: sort_tasks_def priority_key_None_iff)
  with l show "\<exists>m. TodoManager_init now (Json [d]) = Inr m \<and> sort_tasks ''1'' m = Inl ValueError"
    by blast
qed

theorem sort_by_priority_partial_witness:
  "TodoManager_init ''2026-06-01 12:00:00'' (Json [urgent_record])
     = Inr \<lparr> tasks = [urgent_task], disk = Json [urgent_record] \<rparr> \<and>
   sort_tasks ''1'' \<lparr> tasks = [urgent_task], disk = Json [urgent_record] \<rparr> = Inl ValueError"
proof -
  have l: "TodoManager_init ''2026-06-01 12:00:00'' (Json [urgent_record])
     = Inr \<lparr> tasks = [urgent_task], disk = Json [urgent_record] \<rparr>"
    by code_simp
  have h: "d_id urgent_record = Some 1 \<and> d_title urgent_record = Some ''Ship release'' \<and>
    d_priority urgent_record = Some ''urgent'' \<and> ''urgent'' \<notin> set valid_priorities"
    by code_simp
  from sort_by_priority_partial [of _ urgent_record 1 "''Ship release''" "''urgent''"
      "''2026-06-01 12:00:00''"] h
  obtain m where "TodoManager_init ''2026-06-01 12:00:00'' (Json [urgent_record]) = Inr m"
    "sort_tasks ''1'' m = Inl ValueError"
    by blast
  with l show ?thesis by simp
qed

section \<open>The priority invariant\<close>

lemma priorities_valid_iff:
  "priorities_valid self \<longleftrightarrow> (\<forall>t \<in> set (tasks self). priority t \<in> set valid_priorities)"
  by (simp add: priorities_valid_def list_all_iff)

lemma from_dict_priority:
  "from_dict now d = Inr t \<Longrightarrow> priority t = (case d_priority d of None \<Rightarrow> ''medium'' | Some p \<Rightarrow> p)"
  by (auto simp: from_dict_def Task_init_def split: option.splits)

lemma from_dicts_valid:
  "from_dicts now ds = Inr ts \<Longrightarrow> list_all record_priority_valid ds \<Longrightarrow>
   \<forall>t \<in> set ts. priority t \<in> set valid_priorities"
proof (induction ds arbitrary: ts)
  case Nil
  then show ?case by simp
next
  case (Cons d ds)
  from Cons.prems(1) obtain t ts' where
    t: "from_dict now d = Inr t" and ts': "from_dicts now ds = Inr ts'" and e: "ts = t # ts'"
    by (auto split: sum.splits)
  from Cons.prems(2) have "record_priority_valid d" and r: "list_all record_priority_valid ds"
    by simp_all
  with from_dict_priority [OF t] have "priority t \<in> set valid_priorities"
    by (auto simp: record_priority_valid_def valid_priorities_def split: option.splits)
  with Cons.IH [OF ts' r] e show ?case by simp
qed

lemma load_valid:
  assumes "list_all record_priority_valid ds" and "TodoManager_init now (Json ds) = Inr m"
  shows "priorities_valid m"
proof -
  from assms(2) obtain ts where ts: "from_dicts now ds = Inr ts" and m: "tasks m = ts"
    by (auto simp: TodoManager_init_def load_tasks_def split: sum.splits)
  from from_dicts_valid [OF ts assms(1)] m show ?thesis
    by (simp add: priorities_valid_iff)
qed

lemma add_task_valid:
  assumes "priorities_valid self"
  shows "priorities_valid (snd (add_task now ti de pr tg du self))"
  using assms unfolding priorities_valid_iff add_task_tasks
  by (auto simp: valid_priorities_def)

lemma assign_found_valid:
  assumes "\<forall>t \<in> set ts. priority t \<in> set valid_priorities"
    and "priority new \<in> set valid_priorities"
  shows "\<forall>t \<in> set (assign_found ts tid new). priority t \<in> set valid_priorities"
  using assms set_assign_found [of ts tid new] by blast

lemma update_task_valid:
  assumes "priorities_valid self"
  shows "priorities_valid (snd (update_task tid ti de pr tg du self))"
proof (cases "find_task (tasks self) tid")
  case None
  with assms show ?thesis by (simp add: update_task_def)
next
  case (Some task)
  from assms have v: "\<forall>t \<in> set (tasks self). priority t \<in> set valid_priorities"
    by (simp add: priorities_valid_iff)
  from Some have "task \<in> set (tasks self)" by (simp add: find_task_Some)
  with v have p: "priority task \<in> set valid_priorities" by blast
  let ?new = "task\<lparr> title := if ti \<noteq> [] then ti else title task,
                 description := if de \<noteq> [] then de else description task,
                 priority := if lower pr \<in> set valid_priorities then lower pr else priority task,
                 tags := if strip tg \<noteq> [] then map strip (split CHR '','' tg) else tags task,
                 due_date := if strip du \<noteq> [] then Some du else due_date task \<rparr>"
  have n: "priority ?new \<in> set valid_priorities"
    using p by simp
  have "tasks (snd (update_task tid ti de pr tg du self)) = assign_found (tasks self) tid ?new"
    using Some by (simp add: update_task_def Let_def save_tasks_def)
  with assign_found_valid [OF v n] show ?thesis
    by (simp add: priorities_valid_iff)
qed

lemma toggle_complete_valid:
  assumes "priorities_valid self"
  shows "priorities_valid (snd (toggle_complete tid self))"
proof (cases "find_task (tasks self) tid")
  case None
  with assms show ?thesis by (simp add: toggle_complete_def)
next
  case (Some task)
  from assms have v: "\<forall>t \<in> set (tasks self). priority t \<in> set valid_priorities"
    by (simp add: priorities_valid_iff)
  from Some have "task \<in> set (tasks self)" by (simp add: find_task_Some)
  with v have n: "priority (task\<lparr>completed := \<not> completed task\<rparr>) \<in> set valid_priorities"
    by simp
  have "tasks (snd (toggle_complete tid self))
      = assign_found (tasks self) tid (task\<lparr>completed := \<not> completed task\<rparr>)"
    using Some by (simp add: toggle_complete_def save_tasks_def)
  with assign_found_valid [OF v n] show ?thesis
    by (simp add: priorities_valid_iff)
qed

lemma delete_task_valid:
  assumes "priorities_valid self"
  shows "priorities_valid (snd (delete_task tid self))"
  using assms by (simp add: priorities_valid_iff delete_task_def save_tasks_def)

lemma sort_tasks_valid:
  assumes "priorities_valid self"
  shows "\<exists>out self'. sort_tasks choice self = Inr (out, self') \<and> priorities_valid self'"
proof -
  from assms have v: "\<forall>t \<in> set (tasks self). priority t \<in> set valid_priorities"
    by (simp add: priorities_valid_iff)
  have s: "priorities_valid (save_tasks (self\<lparr>tasks := sort_key f (tasks self)\<rparr>))"
    for f :: "Task \<Rightarrow> 'k::linorder"
    using v by (simp add: priorities_valid_iff save_tasks_def)
  consider "choice = ''1''" | "choice \<noteq> ''1''" "choice = ''2''"
    | "choice \<noteq> ''1''" "choice \<noteq> ''2''" "choice = ''3''"
    | "choice \<noteq> ''1''" "choice \<noteq> ''2''" "choice \<noteq> ''3''"
    by blast
  then show ?thesis
  proof cases
    case 1
    have "sort_tasks ''1'' self = Inr ([sort_menu, ''Tasks sorted.''],
          save_tasks (self\<lparr>tasks := sort_key (\<lambda>x. the (priority_key x)) (tasks self)\<rparr>))"
      by (rule sort_tasks_priority_valid [OF v])
    with 1 s show ?thesis by blast
  next
    case 2
    then have "sort_tasks choice self = Inr ([sort_menu, ''Tasks sorted.''],
          save_tasks (self\<lparr>tasks := sort_key (\<lambda>x. lower (title x)) (tasks self)\<rparr>))"
      by (simp add: sort_tasks_def)
    with s show ?thesis by blast
  next
    case 3
    then have "sort_tasks choice self = Inr ([sort_menu, ''Tasks sorted.''],
          save_tasks (self\<lparr>tasks := sort_key (\<lambda>x. created_at x) (tasks self)\<rparr>))"
      by (simp add: sort_tasks_def)
    with s show ?thesis by blast
  next
    case 4
    then have "sort_tasks choice self = Inr ([sort_menu, ''Invalid choice.''], self)"
      by (simp add: sort_tasks_def)
    with assms show ?thesis by blast
  qed
qed

text \<open>
  Claim C5, as stated, fails after a load: the constructor takes any priority text, and
  \<open>load_tasks\<close> checks none. The backing file with the one record of priority
  \<^verbatim>\<open>urgent\<close> loads into a collection whose task has that priority.
\<close>

theorem priorities_valid_load_counterexample:
  "TodoManager_init ''2026-06-01 12:00:00'' (Json [urgent_record])
     = Inr \<lparr> tasks = [urgent_task], disk = Json [urgent_record] \<rparr> \<and>
   \<not> priorities_valid \<lparr> tasks = [urgent_task], disk = Json [urgent_record] \<rparr>"
  by code_simp

text \<open>
  Claim C5, amended. Every task of the collection has one of the priorities low, medium and
  high in a manager built when there is no backing file, and in a manager loaded from a
  backing file whose records each have one of the three priorities or none (the
  constructor then gives medium); and each of add, update, toggle, delete and sort (which
  then succeeds, whatever the choice) gives a collection with that property when it starts
  from one. The load itself checks no priority.
\<close>

theorem priorities_valid_preserved:
  "(\<forall>m. TodoManager_init now NoFile = Inr m \<longrightarrow> priorities_valid m) \<and>
   (\<forall>m. list_all record_priority_valid ds \<and> TodoManager_init now (Json ds) = Inr m \<longrightarrow>
      priorities_valid m) \<and>
   (priorities_valid self \<longrightarrow>
      priorities_valid (snd (add_task now ti de pr tg du self)) \<and>
      priorities_valid (snd (update_task tid ti de pr tg du self)) \<and>
      priorities_valid (snd (toggle_complete tid self)) \<and>
      priorities_valid (snd (delete_task tid self)) \<and>
      (\<exists>out self'. sort_tasks choice self = Inr (out, self') \<and> priorities_valid self'))"
proof (intro conjI allI impI)
  fix m
  assume "TodoManager_init now NoFile = Inr m"
  then have "tasks m = []"
    by (auto simp: TodoManager_init_def load_tasks_def)
  then show "priorities_valid m"
    by (simp add: priorities_valid_def)
next
  fix m
  assume "list_all record_priority_valid ds \<and> TodoManager_init now (Json ds) = Inr m"
  then show "priorities_valid m"
    using load_valid by blast
next
  assume "priorities_valid self"
  then show "priorities_valid (snd (add_task now ti de pr tg du self))"
    by (rule add_task_valid)
next
  assume "priorities_valid self"
  then show "priorities_valid (snd (update_task tid ti de pr tg du self))"
    by (rule update_task_valid)
next
  assume "priorities_valid self"
  then show "priorities_valid (snd (toggle_complete tid self))"
    by (rule toggle_complete_valid)
next
  assume "priorities_valid self"
  then show "priorities_valid (snd (delete_task tid self))"
    by (rule delete_task_valid)
next
  assume "priorities_valid self"
  then show "\<exists>out self'. sort_tasks choice self = Inr (out, self') \<and> priorities_valid self'"
    by (rule sort_tasks_valid)
qed

theorem priorities_valid_preserved_witness:
  "priorities_valid manager123 \<and>
   TodoManager_init ''2026-06-01 12:00:00'' (disk manager123) = Inr manager123 \<and>
   priorities_valid (snd (add_task ''2026-06-01 12:00:00'' ''Read'' [] ''URGENT'' [] [] manager123)) \<and>
   priorities_valid (snd (update_task 1 [] [] ''urgent'' [] [] manager123)) \<and>
   priorities_valid (snd (toggle_complete 2 manager123)) \<and>
   priorities_valid (snd (delete_task 3 manager123)) \<and>
   (\<exists>out self'. sort_tasks ''2'' manager123 = Inr (out, self') \<and> priorities_valid self')"
proof -
  have r: "list_all record_priority_valid (map to_dict (tasks manager123))"
    by code_simp
  have l: "TodoManager_init ''2026-06-01 12:00:00'' (Json (map to_dict (tasks manager123)))
      = Inr manager123"
    by code_simp
  have d: "disk manager123 = Json (map to_dict (tasks manager123))"
    by (simp add: manager123_def)
  note inst = priorities_valid_preserved [of "''2026-06-01 12:00:00''" "map to_dict (tasks manager123)"
      manager123 "''Read''" "[]" "''URGENT''" "[]" "[]" 1 "''2''"]
  from inst r l have v: "priorities_valid manager123"
    by blast
  note inst1 = priorities_valid_preserved [of "''2026-06-01 12:00:00''" "[]"
      manager123 "''Read''" "[]" "''URGENT''" "[]" "[]" 2 "''2''"]
  note inst2 = priorities_valid_preserved [of "''2026-06-01 12:00:00''" "[]"
      manager123 "[]" "[]" "''urgent''" "[]" "[]" 1 "''2''"]
  note inst3 = priorities_valid_preserved [of "''2026-06-01 12:00:00''" "[]"
      manager123 "''Read''" "[]" "''URGENT''" "[]" "[]" 3 "''2''"]
  from inst1 v have a: "priorities_valid (snd (add_task ''2026-06-01 12:00:00'' ''Read'' [] ''URGENT''
      [] [] manager123))"
    and t: "priorities_valid (snd (toggle_complete 2 manager123))"
    and s: "\<exists>out self'. sort_tasks ''2'' manager123 = Inr (out, self') \<and> priorities_valid self'"
    by blast+
  from inst2 v have u: "priorities_valid (snd (update_task 1 [] [] ''urgent'' [] [] manager123))"
    by blast
  from inst3 v have e: "priorities_valid (snd (delete_task 3 manager123))"
    by blast
  from l d have l': "TodoManager_init ''2026-06-01 12:00:00'' (disk manager123) = Inr manager123"
    by simp
  from v l' a u t e s show ?thesis by (intro conjI)
qed

end
